theory Spec2Isabelle
  imports Complex_Main
begin

section \<open>Values, errors and tables\<close>

text \<open>
  The cells of the photometry table and of the feature matrix are NumPy float64 values.
  They are modelled by their mathematical value: a finite real number, one of the two
  infinities, or not-a-number. Rounding is not modelled.
\<close>

datatype npfloat = Fin real | PInf | NInf | NaN

datatype error = KeyError string | IndexError | ValueError

text \<open>\<open>np.isnan\<close>.\<close>

fun np_isnan :: "npfloat \<Rightarrow> bool" where
  "np_isnan NaN = True"
| "np_isnan _ = False"

text \<open>
  \<open>np.isclose(a, b)\<close> with its default tolerances \<open>rtol = 1e-05\<close>, \<open>atol = 1e-08\<close> and
  \<open>equal_nan = False\<close>: two finite values are close when \<open>|a - b| \<le> atol + rtol * |b|\<close>;
  otherwise the values are compared with \<open>==\<close>, which holds for two equal infinities
  and never for not-a-number.
\<close>

fun np_isclose :: "npfloat \<Rightarrow> npfloat \<Rightarrow> bool" where
  "np_isclose (Fin a) (Fin b) = (\<bar>a - b\<bar> \<le> 1 / 10 ^ 8 + (1 / 10 ^ 5) * \<bar>b\<bar>)"
| "np_isclose PInf PInf = True"
| "np_isclose NInf NInf = True"
| "np_isclose _ _ = False"

text \<open>
  \<open>np.log\<close>: the natural logarithm of a positive number, minus infinity at zero,
  not-a-number below zero (NumPy warns and does not raise).
\<close>

fun np_log :: "npfloat \<Rightarrow> npfloat" where
  "np_log (Fin x) = (if 0 < x then Fin (ln x) else if x = 0 then NInf else NaN)"
| "np_log PInf = PInf"
| "np_log NInf = NaN"
| "np_log NaN = NaN"

text \<open>
  The table \<open>data_dict\<close> maps a column name to its column. The feature matrix is kept
  row by row: \<open>data ! r ! c\<close> is \<open>data[r, c]\<close>.
\<close>

type_synonym table = "string \<rightharpoonup> npfloat list"

type_synonym matrix = "npfloat list list"

text \<open>\<open>data_dict[k]\<close> raises KeyError on a missing column.\<close>

definition lookup :: "table \<Rightarrow> string \<Rightarrow> error + npfloat list" where
  "lookup d k = (case d k of None \<Rightarrow> Inl (KeyError k) | Some v \<Rightarrow> Inr v)"

text \<open>
  \<open>np.empty([rows, cols])\<close> allocates without initialising; \<open>junk r c\<close> stands for
  whatever the memory holds at row \<open>r\<close>, column \<open>c\<close>.
\<close>

definition np_empty :: "(nat \<Rightarrow> nat \<Rightarrow> npfloat) \<Rightarrow> nat \<Rightarrow> nat \<Rightarrow> matrix" where
  "np_empty junk rows cols = map (\<lambda>r. map (junk r) [0..<cols]) [0..<rows]"

text \<open>
  \<open>data[:, c] = col\<close>. A column as long as the matrix is copied; a column of length one
  is broadcast to every row; any other length raises ValueError.
\<close>

definition assign_col :: "matrix \<Rightarrow> nat \<Rightarrow> npfloat list \<Rightarrow> error + matrix" where
  "assign_col data c col =
     (if length col = length data then Inr (map2 (\<lambda>row v. row[c := v]) data col)
      else if length col = 1 then Inr (map (\<lambda>row. row[c := hd col]) data)
      else Inl ValueError)"

text \<open>
  \<open>data[:, c][mask] = v\<close>. \<open>data[:, c]\<close> is a view, so the assignment writes into
  \<open>data\<close>. A boolean mask whose length is not the number of rows raises IndexError.
\<close>

definition assign_masked :: "matrix \<Rightarrow> nat \<Rightarrow> bool list \<Rightarrow> npfloat \<Rightarrow> error + matrix" where
  "assign_masked data c msk v =
     (if length msk = length data
      then Inr (map2 (\<lambda>row m. if m then row[c := v] else row) data msk)
      else Inl IndexError)"

text \<open>Sequencing of steps that may raise.\<close>

definition bindE :: "error + 'a \<Rightarrow> ('a \<Rightarrow> error + 'b) \<Rightarrow> error + 'b" where
  "bindE m f = (case m of Inl e \<Rightarrow> Inl e | Inr x \<Rightarrow> f x)"

section \<open>The feature encoder \<open>_prepare_data\<close>\<close>

text \<open>
  The row mask of one band:
  \<open>np.bitwise_or(np.isclose(data_dict[band], nondet_val), np.isnan(data_dict[band]))\<close>.
\<close>

definition nondetect :: "npfloat \<Rightarrow> npfloat \<Rightarrow> bool" where
  "nondetect nondet_val x = (np_isclose x nondet_val \<or> np_isnan x)"

text \<open>
  One pass of the loop body, for the triple \<open>(band, eband, lim)\<close> at position \<open>i\<close>.
\<close>

definition band_step ::
  "table \<Rightarrow> npfloat \<Rightarrow> bool \<Rightarrow> nat \<Rightarrow> matrix \<Rightarrow> nat \<Rightarrow> string \<times> string \<times> npfloat \<Rightarrow> error + matrix"
where
  "band_step data_dict nondet_val logflag numbands data i z =
     (case z of (band, eband, limit) \<Rightarrow>
        bindE (lookup data_dict band) (\<lambda>col.
        bindE (assign_col data i col) (\<lambda>data1.
        let msk = map (nondetect nondet_val) col in
        bindE (assign_masked data1 i msk limit) (\<lambda>data2.
        bindE (lookup data_dict eband) (\<lambda>ecol.
        bindE (assign_col data2 (numbands + i) (if logflag then map np_log ecol else ecol)) (\<lambda>data3.
        assign_masked data3 (numbands + i) msk (Fin 1)))))))"

text \<open>
  The loop \<open>for i, (band, eband, lim) in enumerate(zip(bands, err_bands, maglims.values()))\<close>,
  on the triples that are left, from position \<open>i\<close>.
\<close>

fun prepare_loop ::
  "table \<Rightarrow> npfloat \<Rightarrow> bool \<Rightarrow> nat \<Rightarrow> matrix \<Rightarrow> nat \<Rightarrow> (string \<times> string \<times> npfloat) list \<Rightarrow> error + matrix"
where
  "prepare_loop data_dict nondet_val logflag numbands data i [] = Inr data"
| "prepare_loop data_dict nondet_val logflag numbands data i (z # zs) =
     bindE (band_step data_dict nondet_val logflag numbands data i z)
       (\<lambda>data'. prepare_loop data_dict nondet_val logflag numbands data' (Suc i) zs)"

text \<open>
  \<open>_prepare_data\<close>. The mapping \<open>maglims\<close> is a dict, kept as the list of its items in
  iteration order, since the loop reads \<open>maglims.values()\<close> by position. \<open>zip\<close> stops at
  the shortest of its three arguments. \<open>bands[0]\<close> raises IndexError on an empty band
  list.
\<close>

definition prepare_data ::
  "(nat \<Rightarrow> nat \<Rightarrow> npfloat) \<Rightarrow> table \<Rightarrow> string list \<Rightarrow> string list \<Rightarrow> npfloat
     \<Rightarrow> (string \<times> npfloat) list \<Rightarrow> bool \<Rightarrow> error + matrix"
where
  "prepare_data junk data_dict bands err_bands nondet_val maglims logflag =
     (case bands of
        [] \<Rightarrow> Inl IndexError
      | b0 # _ \<Rightarrow>
          bindE (lookup data_dict b0) (\<lambda>col0.
            let numbands = length bands;
                totrows = length col0;
                data = np_empty junk totrows (2 * numbands)
            in prepare_loop data_dict nondet_val logflag numbands data 0
                 (zip bands (zip err_bands (map snd maglims)))))"

section \<open>Configuration\<close>

text \<open>
  The options the two stages share (\<open>SHARED_PARAMS\<close>), then the options of the inform
  stage and of the estimation stage.
\<close>

record shared_config =
  nondetect_val :: npfloat
  mag_limits :: "(string \<times> npfloat) list"
  bands :: "string list"
  err_bands :: "string list"
  log_errors :: bool

record inform_config = shared_config +
  trainfrac :: real
  seed :: int
  redshift_col :: string
  gpz_method :: string
  n_basis :: int
  learn_jointly :: bool
  hetero_noise :: bool
  csl_method :: string
  csl_binwidth :: real
  pca_decorrelate :: bool
  max_iter :: int
  max_attempt :: int

record estimator_config = shared_config +
  zmin :: real
  zmax :: real
  nzbins :: nat
  ref_band :: string

section \<open>The inform stage \<open>Inform_GPz_v1.run\<close>\<close>

text \<open>Python's \<open>int(x)\<close> on a finite float: truncation towards zero.\<close>

definition py_int :: "real \<Rightarrow> int" where
  "py_int x = (if 0 \<le> x then \<lfloor>x\<rfloor> else \<lceil>x\<rceil>)"

text \<open>
  Rounding to the nearest integer, ties to the even one.
\<close>

definition round_half_even :: "real \<Rightarrow> int" where
  "round_half_even x =
     (let f = \<lfloor>x\<rfloor>; d = x - of_int f
      in if d < 1 / 2 then f else if 1 / 2 < d then f + 1 else if even f then f else f + 1)"

text \<open>
  The float64 number nearest to a real number, ties to the even significand: the
  rounding that follows every float64 operation and the conversion of an integer to
  float64. A number in \<open>[2^k, 2^(k+1))\<close> keeps 53 binary digits, so it is rounded to a
  multiple of \<open>2^(k-52)\<close>. The two ends of the float64 range are left out: no overflow
  to infinity above about \<open>1.8e308\<close>, and full precision below \<open>2^-1022\<close>, where the
  integer part, the only thing the split reads, is zero either way.
\<close>

definition float64 :: "real \<Rightarrow> real" where
  "float64 x =
     (if x = 0 then 0
      else let e = \<lfloor>log 2 \<bar>x\<bar>\<rfloor> - 52
           in of_int (round_half_even (x / 2 powr of_int e)) * 2 powr of_int e)"

text \<open>
  The position a slice bound \<open>k\<close> denotes in a sequence of length \<open>n\<close>: a negative bound
  counts from the end, and every bound is clipped to the sequence. Then \<open>xs[:k]\<close> is
  \<open>take (slice_bound (length xs) k) xs\<close> and \<open>xs[k:]\<close> is the matching \<open>drop\<close>.
\<close>

definition slice_bound :: "nat \<Rightarrow> int \<Rightarrow> nat" where
  "slice_bound n k = (if k < 0 then nat (max 0 (int n + k)) else min (nat k) n)"

text \<open>
  \<open>m[idx] = True\<close> for an array \<open>idx\<close> of indices; an index beyond the mask raises
  IndexError.
\<close>

fun set_true :: "bool list \<Rightarrow> nat list \<Rightarrow> error + bool list" where
  "set_true m [] = Inr m"
| "set_true m (j # js) = (if j < length m then set_true (m[j := True]) js else Inl IndexError)"

text \<open>
  The split into training and validation rows. \<open>np.random.permutation\<close> draws from
  NumPy's process-wide generator: \<open>permutation\<close> is that generator's function from its
  current state \<open>rng\<close> and a length to the array it returns. The configuration is passed
  whole, as \<open>self.config\<close> is; the split reads \<open>trainfrac\<close> from it. In
  \<open>int(ngal * trainfrac)\<close> the integer \<open>ngal\<close> is converted to float64 and the product is
  rounded to float64 before \<open>int\<close> truncates it.
\<close>

definition partition_rows ::
  "('g \<Rightarrow> nat \<Rightarrow> nat list) \<Rightarrow> 'c inform_config_scheme \<Rightarrow> 'g \<Rightarrow> nat \<Rightarrow> error + bool list \<times> bool list"
where
  "partition_rows permutation config rng ngal =
     (let ntrain = py_int (float64 (float64 (real ngal) * trainfrac config));
          randvec = permutation rng ngal;
          train_mask = replicate ngal False;
          val_mask = replicate ngal False
      in bindE (set_true train_mask (take (slice_bound (length randvec) ntrain) randvec)) (\<lambda>train_mask'.
         bindE (set_true val_mask (drop (slice_bound (length randvec) ntrain) randvec)) (\<lambda>val_mask'.
         Inr (train_mask', val_mask'))))"

text \<open>
  The arguments of the three calls into the GPz module: \<open>getOmega(sz, method=...)\<close>,
  \<open>GP(n_basis, method=..., joint=..., heteroscedastic=..., decorrelate=..., seed=...)\<close> and
  \<open>model.train(input_array, sz, omega=..., training=..., validation=..., maxIter=...,
  maxAttempts=...)\<close>. A keyword that the call does not pass is \<open>None\<close>.
\<close>

record omega_call =
  oc_targets :: matrix
  oc_method :: string
  oc_binwidth :: "real option"

record gp_call =
  gp_m :: int
  gp_method :: string
  gp_joint :: bool
  gp_heteroscedastic :: bool
  gp_decorrelate :: bool
  gp_seed :: int

record 'w train_call =
  tr_X :: matrix
  tr_Y :: matrix
  tr_omega :: 'w
  tr_training :: "bool list"
  tr_validation :: "bool list"
  tr_maxIter :: int
  tr_maxAttempts :: int

definition omega_args :: "'c inform_config_scheme \<Rightarrow> matrix \<Rightarrow> omega_call" where
  "omega_args config sz = \<lparr>oc_targets = sz, oc_method = csl_method config, oc_binwidth = None\<rparr>"

definition gp_args :: "'c inform_config_scheme \<Rightarrow> gp_call" where
  "gp_args config =
     \<lparr>gp_m = n_basis config, gp_method = gpz_method config, gp_joint = learn_jointly config,
      gp_heteroscedastic = hetero_noise config, gp_decorrelate = pca_decorrelate config,
      gp_seed = seed config\<rparr>"

text \<open>
  \<open>run\<close>, up to and including the call of \<open>model.train\<close>: the result is the model that
  was constructed and the arguments \<open>train\<close> was called with, or the error raised before
  that call. \<open>getOmega\<close> is the weighting function of the GPz module, which may raise.
  \<open>np.expand_dims(col, -1)\<close> turns the redshift column into a matrix of one column.
\<close>

definition run ::
  "('g \<Rightarrow> nat \<Rightarrow> nat list) \<Rightarrow> (omega_call \<Rightarrow> error + 'w) \<Rightarrow> (nat \<Rightarrow> nat \<Rightarrow> npfloat)
     \<Rightarrow> 'c inform_config_scheme \<Rightarrow> 'g \<Rightarrow> table \<Rightarrow> error + gp_call \<times> 'w train_call"
where
  "run permutation getOmega junk config rng training_data =
     bindE (prepare_data junk training_data (bands config) (err_bands config)
              (nondetect_val config) (mag_limits config) (log_errors config)) (\<lambda>input_array.
     bindE (lookup training_data (redshift_col config)) (\<lambda>zcol.
     let sz = map (\<lambda>z. [z]) zcol;
         ngal = length input_array
     in bindE (partition_rows permutation config rng ngal) (\<lambda>masks.
        bindE (getOmega (omega_args config sz)) (\<lambda>omega_weights.
        Inr (gp_args config,
             \<lparr>tr_X = input_array, tr_Y = sz, tr_omega = omega_weights,
              tr_training = fst masks, tr_validation = snd masks,
              tr_maxIter = max_iter config, tr_maxAttempts = max_attempt config\<rparr>)))))"

section \<open>The estimation stage \<open>GPz_v1._process_chunk\<close>\<close>

text \<open>
  What the trained model predicts for one row: mean, total variance, model variance,
  noise variance and a fifth, unused component.
\<close>

record prediction =
  mu :: npfloat
  totalV :: npfloat
  modelV :: npfloat
  noiseV :: npfloat
  reserved :: "npfloat list"

text \<open>
  Modelled from the spec: \<open>GP.predict\<close>, of the module \<open>GPz\<close> that is not among the
  sources. The trained model is an opaque artifact with "a prediction entry point
  accepting (features) and returning (mean, total_variance, model_variance,
  noise_variance, reserved) per row": it is kept as its function from a feature row to
  the prediction for that row, and \<open>predict\<close> returns the five arrays.
\<close>

type_synonym gp_model = "npfloat list \<Rightarrow> prediction"

definition predict ::
  "gp_model \<Rightarrow> matrix \<Rightarrow> npfloat list \<times> npfloat list \<times> npfloat list \<times> npfloat list \<times> npfloat list list"
where
  "predict model X =
     (map (\<lambda>row. mu (model row)) X, map (\<lambda>row. totalV (model row)) X,
      map (\<lambda>row. modelV (model row)) X, map (\<lambda>row. noiseV (model row)) X,
      map (\<lambda>row. reserved (model row)) X)"

text \<open>
  \<open>qp.Ensemble(qp.stats.norm, data=dict(loc=..., scale=...))\<close> with its ancillary table:
  one normal distribution per row, and the \<open>zmode\<close> column once \<open>set_ancil\<close> has run.
\<close>

record ensemble =
  loc :: "npfloat list"
  scale :: "npfloat list"
  zmode :: "npfloat list option"

text \<open>\<open>np.linspace(a, b, n)\<close>: \<open>n\<close> evenly spaced points from \<open>a\<close> to \<open>b\<close>, both included.\<close>

definition linspace :: "real \<Rightarrow> real \<Rightarrow> nat \<Rightarrow> real list" where
  "linspace a b n = map (\<lambda>k. a + real k * ((b - a) / real (n - 1))) [0..<n]"

text \<open>
  \<open>ens.mode(grid=zgrid)\<close> looks, for each distribution of the ensemble, for the grid
  point of largest density; \<open>mode_row grid l s\<close> is that point for the normal
  distribution with location \<open>l\<close> and scale \<open>s\<close>.
\<close>

definition ens_mode :: "(real list \<Rightarrow> npfloat \<Rightarrow> npfloat \<Rightarrow> npfloat) \<Rightarrow> ensemble \<Rightarrow> real list \<Rightarrow> npfloat list" where
  "ens_mode mode_row ens grid = map2 (mode_row grid) (loc ens) (scale ens)"

text \<open>
  \<open>_process_chunk\<close>: the result is what is handed to \<open>_do_chunk_output\<close>, or the error
  raised before.
\<close>

definition process_chunk ::
  "(nat \<Rightarrow> nat \<Rightarrow> npfloat) \<Rightarrow> (real list \<Rightarrow> npfloat \<Rightarrow> npfloat \<Rightarrow> npfloat) \<Rightarrow> gp_model
     \<Rightarrow> 'c estimator_config_scheme \<Rightarrow> nat \<Rightarrow> nat \<Rightarrow> table \<Rightarrow> bool
     \<Rightarrow> error + ensemble \<times> nat \<times> nat \<times> bool"
where
  "process_chunk junk mode_row model config start end' data first =
     bindE (prepare_data junk data (bands config) (err_bands config)
              (nondetect_val config) (mag_limits config) (log_errors config)) (\<lambda>test_array.
     case predict model test_array of (mu', totalV', modelV', noiseV', _) \<Rightarrow>
       let ens = \<lparr>loc = mu', scale = totalV', zmode = None\<rparr>;
           zgrid = linspace (zmin config) (zmax config) (nzbins config);
           zmode' = ens_mode mode_row ens zgrid;
           ens' = ens\<lparr>zmode := Some zmode'\<rparr>
       in Inr (ens', start, end', first))"

section \<open>The encoding of one cell\<close>

text \<open>
  The encoder as a function of one magnitude and one error, in the words of its
  description: a magnitude that is close to the non-detection value or not a number is
  replaced by the limit and its error by \<open>1.0\<close>; any other error is kept, or replaced by
  its logarithm when the flag is set.
\<close>

definition encode_mag :: "npfloat \<Rightarrow> npfloat \<Rightarrow> npfloat \<Rightarrow> npfloat" where
  "encode_mag nondet_val limit x = (if nondetect nondet_val x then limit else x)"

definition encode_err :: "npfloat \<Rightarrow> bool \<Rightarrow> npfloat \<Rightarrow> npfloat \<Rightarrow> npfloat" where
  "encode_err nondet_val logflag x e =
     (if nondetect nondet_val x then Fin 1 else if logflag then np_log e else e)"

text \<open>
  The value a column contributes to row \<open>r\<close> of a matrix of \<open>n\<close> rows: its entry \<open>r\<close>, or
  its only entry when a column of length one is broadcast.
\<close>

definition cell_of :: "nat \<Rightarrow> npfloat list \<Rightarrow> nat \<Rightarrow> npfloat" where
  "cell_of n col r = (if length col = n then col ! r else hd col)"

text \<open>The limit a mapping holds for a band identifier, \<open>maglims[band]\<close>.\<close>

definition limit_of :: "(string \<times> npfloat) list \<Rightarrow> string \<Rightarrow> npfloat option" where
  "limit_of maglims band = map_of maglims band"

text \<open>\<open>np.sqrt\<close>: the standard deviation that belongs to a variance.\<close>

fun np_sqrt :: "npfloat \<Rightarrow> npfloat" where
  "np_sqrt (Fin x) = (if 0 \<le> x then Fin (sqrt x) else NaN)"
| "np_sqrt PInf = PInf"
| "np_sqrt NInf = NaN"
| "np_sqrt NaN = NaN"

section \<open>Row-aligned tables\<close>


section \<open>Chunks of a table\<close>

text \<open>
  The rows \<open>start..end-1\<close> of every column: the table a caller hands to \<open>_process_chunk\<close>
  for the chunk \<open>[start, end)\<close>.
\<close>

definition slice_rows :: "nat \<Rightarrow> nat \<Rightarrow> table \<Rightarrow> table" where
  "slice_rows start end' d = (\<lambda>k. map_option (\<lambda>col. take (end' - start) (drop start col)) (d k))"


section \<open>Concrete inputs\<close>

text \<open>
  A generator to evaluate the split with: its state is a number, and the permutation it
  returns is the identity rotated by that number.
\<close>

definition rotation :: "nat \<Rightarrow> nat \<Rightarrow> nat list" where
  "rotation g n = rotate g [0..<n]"

text \<open>Memory that holds zeros, a weighting function that returns one weight per row.\<close>

definition zeros :: "nat \<Rightarrow> nat \<Rightarrow> npfloat" where
  "zeros r c = Fin 0"

definition unit_weights :: "omega_call \<Rightarrow> error + real list" where
  "unit_weights call = Inr (map (\<lambda>row. 1) (oc_targets call))"

text \<open>
  A table of two bands and two rows; the \<open>u\<close> magnitude of the first row is the
  non-detection value 99.
\<close>

definition photometry :: table where
  "photometry =
     [''u'' \<mapsto> [Fin 99, Fin 22], ''g'' \<mapsto> [Fin 21, Fin 23],
      ''u_err'' \<mapsto> [Fin 5, Fin 1], ''g_err'' \<mapsto> [Fin 1, Fin 1],
      ''redshift'' \<mapsto> [Fin (1 / 2), Fin 1]]"

definition inform_cfg :: inform_config where
  "inform_cfg =
     \<lparr>nondetect_val = Fin 99, mag_limits = [(''u'', Fin 27), (''g'', Fin 25)],
      bands = [''u'', ''g''], err_bands = [''u_err'', ''g_err''], log_errors = True,
      trainfrac = 3 / 4, seed = 87, redshift_col = ''redshift'', gpz_method = ''VC'',
      n_basis = 50, learn_jointly = True, hetero_noise = True, csl_method = ''balanced'',
      csl_binwidth = 1 / 10, pca_decorrelate = True, max_iter = 200, max_attempt = 100\<rparr>"

definition estimator_cfg :: estimator_config where
  "estimator_cfg =
     \<lparr>nondetect_val = Fin 99, mag_limits = [(''u'', Fin 27), (''g'', Fin 25)],
      bands = [''u'', ''g''], err_bands = [''u_err'', ''g_err''], log_errors = True,
      zmin = 0, zmax = 3, nzbins = 4, ref_band = ''g''\<rparr>"

text \<open>
  A trained model that predicts the first feature of a row as mean, with total
  variance 4, and a mode function that returns the location.
\<close>

definition toy_model :: gp_model where
  "toy_model row = \<lparr>mu = hd row, totalV = Fin 4, modelV = Fin 3, noiseV = Fin 1, reserved = []\<rparr>"

definition loc_mode :: "real list \<Rightarrow> npfloat \<Rightarrow> npfloat \<Rightarrow> npfloat" where
  "loc_mode grid l s = l"



definition double_0_7 :: real where
  "double_0_7 = 6305039478318694 / 2 ^ 53"

section \<open>The encoder, cell by cell\<close>

text \<open>
  A step that returned a value had every part of it succeed; each of the two
  assignments leaves the shape of the matrix alone and changes one column.
\<close>

lemma bindE_Inr:
  "bindE m f = Inr y \<longleftrightarrow> (\<exists>x. m = Inr x \<and> f x = Inr y)"
  by (cases m) (simp_all add: bindE_def)

lemma assign_col_Inr:
  assumes "assign_col data c col = Inr out"
  shows "length out = length data"
    and "(length col = length data \<or> length col = 1)"
    and "r < length data \<Longrightarrow> out ! r = (data ! r)[c := cell_of (length data) col r]"
  using assms by (auto simp: assign_col_def cell_of_def split: if_splits)

lemma assign_masked_Inr:
  assumes "assign_masked data c msk v = Inr out"
  shows "length out = length data"
    and "length msk = length data"
    and "r < length data \<Longrightarrow> out ! r = (if msk ! r then (data ! r)[c := v] else data ! r)"
  using assms by (auto simp: assign_masked_def split: if_splits)

lemma band_step_Inr:
  assumes "band_step d nd lf B data i (band, eband, limit) = Inr out"
  shows "\<exists>col ecol. d band = Some col \<and> d eband = Some ecol \<and> length col = length data
           \<and> (length ecol = length data \<or> length ecol = 1) \<and> length out = length data
           \<and> (\<forall>r<length data. out ! r =
                 (data ! r)[i := encode_mag nd limit (col ! r),
                            B + i := encode_err nd lf (col ! r) (cell_of (length data) ecol r)])"
proof -
  from assms obtain col data1 data2 ecol data3 where
    c: "lookup d band = Inr col" and
    a1: "assign_col data i col = Inr data1" and
    m1: "assign_masked data1 i (map (nondetect nd) col) limit = Inr data2" and
    e: "lookup d eband = Inr ecol" and
    a2: "assign_col data2 (B + i) (if lf then map np_log ecol else ecol) = Inr data3" and
    m2: "assign_masked data3 (B + i) (map (nondetect nd) col) (Fin 1) = Inr out"
    unfolding band_step_def by (auto simp: bindE_Inr Let_def)
  have dc: "d band = Some col" using c by (auto simp: lookup_def split: option.splits)
  have de: "d eband = Some ecol" using e by (auto simp: lookup_def split: option.splits)
  have l1: "length data1 = length data" using assign_col_Inr(1)[OF a1] .
  have lc: "length col = length data" using assign_masked_Inr(2)[OF m1] l1 by simp
  have l2: "length data2 = length data" using assign_masked_Inr(1)[OF m1] l1 by simp
  have l3: "length data3 = length data" using assign_col_Inr(1)[OF a2] l2 by simp
  have lo: "length out = length data" using assign_masked_Inr(1)[OF m2] l3 by simp
  have le: "length ecol = length data \<or> length ecol = 1"
    using assign_col_Inr(2)[OF a2] l2 by (auto split: if_splits)
  have rows: "out ! r = (data ! r)[i := encode_mag nd limit (col ! r),
                            B + i := encode_err nd lf (col ! r) (cell_of (length data) ecol r)]"
    if r: "r < length data" for r
  proof -
    have r1: "data1 ! r = (data ! r)[i := col ! r]"
      using assign_col_Inr(3)[OF a1 r] lc by (simp add: cell_of_def)
    have r2: "data2 ! r = (data ! r)[i := encode_mag nd limit (col ! r)]"
      using assign_masked_Inr(3)[OF m1, of r] r l1 lc r1 by (simp add: encode_mag_def)
    have ce: "cell_of (length data) (if lf then map np_log ecol else ecol) r
              = (if lf then np_log (cell_of (length data) ecol r) else cell_of (length data) ecol r)"
    proof (cases "length ecol = length data")
      case True
      then show ?thesis using r by (simp add: cell_of_def)
    next
      case False
      with le have "ecol \<noteq> []" by auto
      with False show ?thesis by (simp add: cell_of_def hd_map)
    qed
    have r3: "data3 ! r = (data2 ! r)[B + i := (if lf then np_log (cell_of (length data) ecol r) else cell_of (length data) ecol r)]"
      using assign_col_Inr(3)[OF a2, of r] r l2 ce by simp
    show ?thesis
      using assign_masked_Inr(3)[OF m2, of r] r l3 lc r3 r2 by (simp add: encode_err_def)
  qed
  show ?thesis using dc de lc le lo rows by blast
qed

lemma prepare_loop_shape:
  "prepare_loop d nd lf B data i zs = Inr out \<Longrightarrow>
     length out = length data \<and> (\<forall>r<length data. length (out ! r) = length (data ! r))"
proof (induction zs arbitrary: data i)
  case Nil
  then show ?case by simp
next
  case (Cons z zs)
  obtain band eband limit where z: "z = (band, eband, limit)" by (cases z) auto
  from Cons.prems obtain data1 where
    s: "band_step d nd lf B data i (band, eband, limit) = Inr data1" and
    l: "prepare_loop d nd lf B data1 (Suc i) zs = Inr out"
    by (auto simp: bindE_Inr z)
  from band_step_Inr[OF s] have l1: "length data1 = length data"
    and r1: "\<forall>r<length data. length (data1 ! r) = length (data ! r)" by auto
  from Cons.IH[OF l] l1 r1 show ?case by simp
qed

lemma prepare_loop_frame:
  "prepare_loop d nd lf B data i zs = Inr out \<Longrightarrow> r < length data \<Longrightarrow>
     c < i \<or> (i + length zs \<le> c \<and> c < B + i) \<or> B + i + length zs \<le> c \<Longrightarrow>
     out ! r ! c = data ! r ! c"
proof (induction zs arbitrary: data i)
  case Nil
  then show ?case by simp
next
  case (Cons z zs)
  obtain band eband limit where z: "z = (band, eband, limit)" by (cases z) auto
  from Cons.prems(1) obtain data1 where
    s: "band_step d nd lf B data i (band, eband, limit) = Inr data1" and
    l: "prepare_loop d nd lf B data1 (Suc i) zs = Inr out"
    by (auto simp: bindE_Inr z)
  from band_step_Inr[OF s] Cons.prems(2) obtain x y where
    l1: "length data1 = length data" and
    r1: "data1 ! r = (data ! r)[i := x, B + i := y]" by auto
  have "out ! r ! c = data1 ! r ! c"
    using Cons.IH[OF l] Cons.prems(2,3) l1 by auto
  also have "\<dots> = data ! r ! c"
    using r1 Cons.prems(3) by auto
  finally show ?case .
qed

lemma prepare_loop_cells:
  "prepare_loop d nd lf B data i zs = Inr out \<Longrightarrow> j < length zs \<Longrightarrow>
     zs ! j = (band, eband, limit) \<Longrightarrow> i + length zs \<le> B \<Longrightarrow> r < length data \<Longrightarrow>
     length (data ! r) = 2 * B \<Longrightarrow>
     \<exists>col ecol. d band = Some col \<and> d eband = Some ecol \<and> length col = length data
        \<and> (length ecol = length data \<or> length ecol = 1)
        \<and> out ! r ! (i + j) = encode_mag nd limit (col ! r)
        \<and> out ! r ! (B + (i + j)) = encode_err nd lf (col ! r) (cell_of (length data) ecol r)"
proof (induction zs arbitrary: data i j)
  case Nil
  then show ?case by simp
next
  case (Cons z zs)
  obtain band0 eband0 limit0 where z: "z = (band0, eband0, limit0)" by (cases z) auto
  from Cons.prems(1) obtain data1 where
    s: "band_step d nd lf B data i (band0, eband0, limit0) = Inr data1" and
    l: "prepare_loop d nd lf B data1 (Suc i) zs = Inr out"
    by (auto simp: bindE_Inr z)
  from band_step_Inr[OF s] Cons.prems(5) obtain col ecol where
    dc: "d band0 = Some col" and de: "d eband0 = Some ecol" and
    lc: "length col = length data" and
    le: "length ecol = length data \<or> length ecol = 1" and
    l1: "length data1 = length data" and
    r1: "data1 ! r = (data ! r)[i := encode_mag nd limit0 (col ! r),
                       B + i := encode_err nd lf (col ! r) (cell_of (length data) ecol r)]"
    by auto
  show ?case
  proof (cases j)
    case 0
    with Cons.prems(3) z have eq: "band = band0" "eband = eband0" "limit = limit0" by auto
    have f1: "out ! r ! i = data1 ! r ! i"
      using prepare_loop_frame[OF l, of r i] Cons.prems(5) l1 by simp
    have f2: "out ! r ! (B + i) = data1 ! r ! (B + i)"
      using prepare_loop_frame[OF l, of r "B + i"] Cons.prems(4,5) l1 by simp
    have iB: "i < B" using Cons.prems(4) by simp
    have v1: "data1 ! r ! i = encode_mag nd limit0 (col ! r)"
      using r1 iB Cons.prems(6) by simp
    have v2: "data1 ! r ! (B + i) = encode_err nd lf (col ! r) (cell_of (length data) ecol r)"
      using r1 iB Cons.prems(6) by simp
    show ?thesis using 0 eq dc de lc le f1 f2 v1 v2 by auto
  next
    case (Suc j')
    have len1: "length (data1 ! r) = 2 * B" using r1 Cons.prems(6) by simp
    from Cons.IH[OF l, of j', OF _ _ _ _ len1] Suc Cons.prems l1
    show ?thesis by simp
  qed
qed


lemma prepare_loop_cols:
  "prepare_loop d nd lf B data i zs = Inr out \<Longrightarrow> j < length zs \<Longrightarrow>
     zs ! j = (band, eband, limit) \<Longrightarrow>
     \<exists>col ecol. d band = Some col \<and> d eband = Some ecol \<and> length col = length data
        \<and> (length ecol = length data \<or> length ecol = 1)"
proof (induction zs arbitrary: data i j)
  case Nil
  then show ?case by simp
next
  case (Cons z zs)
  obtain band0 eband0 limit0 where z: "z = (band0, eband0, limit0)" by (cases z) auto
  from Cons.prems(1) obtain data1 where
    s: "band_step d nd lf B data i (band0, eband0, limit0) = Inr data1" and
    l: "prepare_loop d nd lf B data1 (Suc i) zs = Inr out"
    by (auto simp: bindE_Inr z)
  from band_step_Inr[OF s] obtain col ecol where
    dc: "d band0 = Some col" "d eband0 = Some ecol" "length col = length data"
      "length ecol = length data \<or> length ecol = 1" and
    l1: "length data1 = length data"
    by auto
  show ?case
  proof (cases j)
    case 0
    with Cons.prems(3) z dc show ?thesis by auto
  next
    case (Suc j')
    with Cons.IH[OF l, of j'] Cons.prems l1 show ?thesis by simp
  qed
qed

lemma np_empty_shape:
  "length (np_empty junk n m) = n" "r < n \<Longrightarrow> length (np_empty junk n m ! r) = m"
  by (simp_all add: np_empty_def)

lemma prepare_data_Inr:
  assumes "prepare_data junk d bs ebs nd maglims lf = Inr out"
  shows "bs \<noteq> [] \<and> (\<exists>col0. d (hd bs) = Some col0 \<and>
    prepare_loop d nd lf (length bs) (np_empty junk (length col0) (2 * length bs)) 0
       (zip bs (zip ebs (map snd maglims))) = Inr out)"
proof (cases bs)
  case Nil
  with assms show ?thesis by (simp add: prepare_data_def)
next
  case (Cons b0 bs')
  with assms obtain col0 where "lookup d b0 = Inr col0"
    "prepare_loop d nd lf (length bs) (np_empty junk (length col0) (2 * length bs)) 0
       (zip bs (zip ebs (map snd maglims))) = Inr out"
    by (auto simp: prepare_data_def bindE_Inr Let_def)
  moreover from this have "d b0 = Some col0" by (auto simp: lookup_def split: option.splits)
  ultimately show ?thesis using Cons by auto
qed


lemma prepare_data_cols:
  assumes ok: "prepare_data junk d bs ebs nd maglims lf = Inr out"
    and i: "i < length bs" "i < length ebs" "i < length maglims"
  shows "\<exists>col ecol. d (bs ! i) = Some col \<and> d (ebs ! i) = Some ecol
           \<and> length col = length out \<and> (length ecol = length out \<or> length ecol = 1)"
proof -
  from prepare_data_Inr[OF ok] obtain col0 :: "npfloat list" where
    l: "prepare_loop d nd lf (length bs) (np_empty junk (length col0) (2 * length bs)) 0
          (zip bs (zip ebs (map snd maglims))) = Inr out"
    by auto
  let ?zs = "zip bs (zip ebs (map snd maglims))"
  have lo: "length out = length col0"
    using prepare_loop_shape[OF l] by (simp add: np_empty_shape)
  have j: "i < length ?zs" using i by simp
  have z: "?zs ! i = (bs ! i, ebs ! i, snd (maglims ! i))" using i by simp
  from prepare_loop_cols[OF l j z] lo show ?thesis by (simp add: np_empty_shape)
qed

lemma prepare_data_cells:
  assumes ok: "prepare_data junk d bs ebs nd maglims lf = Inr out"
    and i: "i < length bs" "i < length ebs" "i < length maglims"
    and c: "d (bs ! i) = Some col" "d (ebs ! i) = Some ecol"
    and r: "r < length out"
  shows "out ! r ! i = encode_mag nd (snd (maglims ! i)) (col ! r)"
    and "out ! r ! (length bs + i) = encode_err nd lf (col ! r) (cell_of (length out) ecol r)"
proof -
  from prepare_data_Inr[OF ok] obtain col0 :: "npfloat list" where
    l: "prepare_loop d nd lf (length bs) (np_empty junk (length col0) (2 * length bs)) 0
          (zip bs (zip ebs (map snd maglims))) = Inr out"
    by auto
  let ?zs = "zip bs (zip ebs (map snd maglims))"
  have lo: "length out = length col0"
    using prepare_loop_shape[OF l] by (simp add: np_empty_shape)
  have j: "i < length ?zs" using i by simp
  have z: "?zs ! i = (bs ! i, ebs ! i, snd (maglims ! i))" using i by simp
  have b: "0 + length ?zs \<le> length bs" by simp
  from prepare_loop_cells[OF l j z b, of r] r lo c
  show "out ! r ! i = encode_mag nd (snd (maglims ! i)) (col ! r)"
    and "out ! r ! (length bs + i) = encode_err nd lf (col ! r) (cell_of (length out) ecol r)"
    by (simp_all add: np_empty_shape)
qed

section \<open>Claims about the feature encoder\<close>

text \<open>The fixed table, encoded with the limits in band order and in the other order.\<close>

lemmas encoder_eval =
  prepare_data_def lookup_def bindE_def np_empty_def band_step_def assign_col_def
  assign_masked_def nondetect_def zeros_def Let_def upt_rec

lemma photometry_encoded:
  "prepare_data zeros photometry [''u'', ''g''] [''u_err'', ''g_err''] (Fin 99)
     [(''u'', Fin 27), (''g'', Fin 25)] True
   = Inr [[Fin 27, Fin 21, Fin 1, Fin 0], [Fin 22, Fin 23, Fin 0, Fin 0]]"
  by (simp add: encoder_eval photometry_def)

lemma photometry_encoded_swapped:
  "prepare_data zeros photometry [''u'', ''g''] [''u_err'', ''g_err''] (Fin 99)
     [(''g'', Fin 25), (''u'', Fin 27)] False
   = Inr [[Fin 25, Fin 21, Fin 1, Fin 1], [Fin 22, Fin 23, Fin 1, Fin 1]]"
  by (simp add: encoder_eval photometry_def)

lemma map_of_nth:
  "distinct (map fst xs) \<Longrightarrow> i < length xs \<Longrightarrow> map_of xs (fst (xs ! i)) = Some (snd (xs ! i))"
  by (simp add: nth_mem)

text \<open>
  C3. The claim is that a non-detected magnitude is replaced by the limit configured for
  its band. With the limits listed as \<open>g\<close>, \<open>u\<close> and the bands as \<open>u\<close>, \<open>g\<close>, the
  non-detected \<open>u\<close> magnitude of the first row is replaced by 25, the limit stored under
  \<open>g\<close>, and not by 27, the limit the mapping holds for \<open>u\<close>; the error is 1 as claimed.
\<close>

theorem nondetect_limit_of_other_band:
  "prepare_data zeros photometry [''u'', ''g''] [''u_err'', ''g_err''] (Fin 99)
     [(''g'', Fin 25), (''u'', Fin 27)] True
   = Inr [[Fin 25, Fin 21, Fin 1, Fin 0], [Fin 22, Fin 23, Fin 0, Fin 0]]
   \<and> photometry ''u'' = Some [Fin 99, Fin 22]
   \<and> nondetect (Fin 99) (Fin 99)
   \<and> limit_of [(''g'', Fin 25), (''u'', Fin 27)] ''u'' = Some (Fin 27)
   \<and> Fin 25 \<noteq> Fin 27"
  by (simp add: encoder_eval photometry_def limit_of_def)




text \<open>
  C10. The limit written into magnitude column \<open>i\<close> of a masked row is the \<open>i\<close>-th value
  of the limits mapping in its iteration order, not the value stored under the band's
  identifier. It is the band's own limit when the keys of the mapping are the band list
  in the same order; a limit stored under the band's identifier that differs from the
  \<open>i\<close>-th value is not the one written, and no error is raised.
\<close>

theorem maglims_by_position:
  assumes "prepare_data junk d bs ebs nd maglims lf = Inr out"
    and "i < length bs" and "i < length ebs" and "i < length maglims"
    and "d (bs ! i) = Some col" and "r < length col" and "nondetect nd (col ! r)"
  shows "out ! r ! i = snd (maglims ! i)
       \<and> (map fst maglims = bs \<and> distinct bs \<longrightarrow> limit_of maglims (bs ! i) = Some (out ! r ! i))
       \<and> (\<forall>l. limit_of maglims (bs ! i) = Some l \<and> l \<noteq> snd (maglims ! i) \<longrightarrow> out ! r ! i \<noteq> l)"
proof -
  from prepare_data_cols[OF assms(1-4)] assms(5) obtain ecol where
    e: "d (ebs ! i) = Some ecol" and l: "length col = length out" by auto
  have r: "r < length out" using assms(6) l by simp
  have v: "out ! r ! i = snd (maglims ! i)"
    using prepare_data_cells(1)[OF assms(1-4) assms(5) e r] assms(7)
    by (simp add: encode_mag_def)
  have "limit_of maglims (bs ! i) = Some (out ! r ! i)" if "map fst maglims = bs" "distinct bs"
  proof -
    have "bs ! i = fst (maglims ! i)" using that(1) assms(4) by (metis nth_map)
    then show ?thesis using map_of_nth[of maglims i] that assms(4) v by (simp add: limit_of_def)
  qed
  with v show ?thesis by auto
qed

theorem maglims_by_position_witness:
  "[[Fin 27, Fin 21, Fin 1, Fin 0], [Fin 22, Fin 23, Fin 0, Fin 0]] ! 0 ! 0 = Fin 27
   \<and> limit_of [(''u'', Fin 27), (''g'', Fin 25)] ''u'' = Some (Fin 27)
   \<and> [[Fin 25, Fin 21, Fin 1, Fin 1], [Fin 22, Fin 23, Fin 1, Fin 1]] ! 0 ! 0 = Fin 25
   \<and> limit_of [(''g'', Fin 25), (''u'', Fin 27)] ''u'' = Some (Fin 27)"
proof -
  have c: "photometry ([''u'', ''g''] ! 0) = Some [Fin 99, Fin 22]"
    by (simp add: photometry_def)
  have n: "nondetect (Fin 99) ([Fin 99, Fin 22] ! 0)" by (simp add: nondetect_def)
  have a: "[[Fin 27, Fin 21, Fin 1, Fin 0], [Fin 22, Fin 23, Fin 0, Fin 0]] ! 0 ! 0
             = snd ([(''u'', Fin 27), (''g'', Fin 25)] ! 0)"
    using maglims_by_position[OF photometry_encoded _ _ _ c _ n] by simp
  have b: "[[Fin 25, Fin 21, Fin 1, Fin 1], [Fin 22, Fin 23, Fin 1, Fin 1]] ! 0 ! 0
             = snd ([(''g'', Fin 25), (''u'', Fin 27)] ! 0)"
    using maglims_by_position[OF photometry_encoded_swapped _ _ _ c _ n] by simp
  from a b show ?thesis by (simp add: limit_of_def)
qed

section \<open>Claims about the inform stage\<close>

text \<open>
  Rounding to float64 keeps the sign, and is computed from the power of two below the
  number; the numbers the concrete inputs need are evaluated once.
\<close>

lemma round_half_even_nonneg: "0 \<le> x \<Longrightarrow> 0 \<le> round_half_even x"
  by (simp add: round_half_even_def Let_def)

lemma float64_nonneg: "0 \<le> x \<Longrightarrow> 0 \<le> float64 x"
  by (simp add: float64_def Let_def round_half_even_nonneg)

lemma float64_eval:
  assumes "x \<noteq> 0" and "2 powr of_int k \<le> \<bar>x\<bar>" and "\<bar>x\<bar> < 2 powr of_int (k + 1)"
  shows "float64 x = of_int (round_half_even (x / 2 powr of_int (k - 52))) * 2 powr of_int (k - 52)"
proof -
  have p: "0 < \<bar>x\<bar>" using assms(1) by simp
  have "of_int k \<le> log 2 \<bar>x\<bar>" using assms(2) p by (simp add: powr_le_iff)
  moreover have "log 2 \<bar>x\<bar> < of_int k + 1" using assms(3) p by (simp add: less_powr_iff)
  ultimately have "\<lfloor>log 2 \<bar>x\<bar>\<rfloor> = k" by (simp add: floor_eq_iff)
  then show ?thesis using assms(1) by (simp add: float64_def Let_def)
qed

text \<open>
  A row count below \<open>2^53\<close> is a float64 number, and rounding a number that is at most
  such a count gives at most that count.
\<close>

lemma round_half_even_of_int: "round_half_even (of_int m) = m"
  by (simp add: round_half_even_def)

lemma round_half_even_le: "x \<le> of_int m \<Longrightarrow> round_half_even x \<le> m"
proof -
  assume a: "x \<le> of_int m"
  have f: "\<lfloor>x\<rfloor> \<le> m" using a by (simp add: floor_le_iff)
  show ?thesis
  proof (cases "x = of_int \<lfloor>x\<rfloor>")
    case True
    then have "round_half_even x = \<lfloor>x\<rfloor>" by (simp add: round_half_even_def Let_def)
    with f show ?thesis by simp
  next
    case False
    then have "of_int \<lfloor>x\<rfloor> < x" using of_int_floor_le[of x] by linarith
    with a have "of_int \<lfloor>x\<rfloor> < (of_int m :: real)" by linarith
    then have "\<lfloor>x\<rfloor> < m" by simp
    moreover have "round_half_even x \<le> \<lfloor>x\<rfloor> + 1" by (simp add: round_half_even_def Let_def)
    ultimately show ?thesis by linarith
  qed
qed

lemma exponent_nonpos:
  assumes "0 < x" and "x < 2 ^ 53"
  shows "\<lfloor>log 2 x\<rfloor> - 52 \<le> 0"
proof -
  have "log 2 x < 53" using less_powr_iff[of 2 x 53] assms by simp
  then have "\<lfloor>log 2 x\<rfloor> < 53" by (simp add: floor_less_iff)
  then show ?thesis by simp
qed

lemma scaled_nat:
  assumes "e \<le> 0"
  shows "real n / 2 powr of_int e = of_int (int n * 2 ^ nat (- e))"
proof -
  have "2 powr of_int e = 1 / (2::real) ^ nat (- e)"
    using assms powr_real_of_int[of 2 e] by (simp add: field_simps)
  then show ?thesis by simp
qed

lemma float64_of_nat:
  assumes "n < 2 ^ 53"
  shows "float64 (real n) = real n"
proof (cases "n = 0")
  case True
  then show ?thesis by (simp add: float64_def)
next
  case False
  let ?e = "\<lfloor>log 2 \<bar>real n\<bar>\<rfloor> - 52"
  have pos: "0 < real n" using False by simp
  have "real n < 2 ^ 53" using assms by (metis of_nat_less_iff of_nat_numeral of_nat_power)
  then have e: "?e \<le> 0" using exponent_nonpos[OF pos] by simp
  have "float64 (real n) = of_int (round_half_even (real n / 2 powr of_int ?e)) * 2 powr of_int ?e"
    using False by (simp add: float64_def Let_def)
  also have "\<dots> = (real n / 2 powr of_int ?e) * 2 powr of_int ?e"
    by (simp only: scaled_nat[OF e] round_half_even_of_int)
  also have "\<dots> = real n" by simp
  finally show ?thesis .
qed

lemma float64_le_nat:
  assumes "0 \<le> x" and "x \<le> real n" and "n < 2 ^ 53"
  shows "float64 x \<le> real n"
proof (cases "x = 0")
  case True
  then show ?thesis by (simp add: float64_def)
next
  case False
  let ?e = "\<lfloor>log 2 \<bar>x\<bar>\<rfloor> - 52"
  have pos: "0 < x" using False assms(1) by simp
  have "real n < 2 ^ 53" using assms(3) by (metis of_nat_less_iff of_nat_numeral of_nat_power)
  then have "x < 2 ^ 53" using assms(2) by linarith
  then have e: "?e \<le> 0" using exponent_nonpos[OF pos] pos by simp
  have p2: "0 < (2::real) powr of_int ?e" by simp
  have "x / 2 powr of_int ?e \<le> real n / 2 powr of_int ?e"
    using assms(2) p2 by (simp add: divide_right_mono)
  then have "x / 2 powr of_int ?e \<le> of_int (int n * 2 ^ nat (- ?e))"
    by (simp only: scaled_nat[OF e])
  then have "round_half_even (x / 2 powr of_int ?e) \<le> int n * 2 ^ nat (- ?e)"
    by (rule round_half_even_le)
  then have "of_int (round_half_even (x / 2 powr of_int ?e))
               \<le> (of_int (int n * 2 ^ nat (- ?e)) :: real)" by (simp only: of_int_le_iff)
  then have "of_int (round_half_even (x / 2 powr of_int ?e)) \<le> real n / 2 powr of_int ?e"
    by (simp only: scaled_nat[OF e])
  then have "of_int (round_half_even (x / 2 powr of_int ?e)) * 2 powr of_int ?e
               \<le> (real n / 2 powr of_int ?e) * 2 powr of_int ?e"
    using p2 by (simp only: mult_le_cancel_right_pos)
  moreover have "float64 x = of_int (round_half_even (x / 2 powr of_int ?e)) * 2 powr of_int ?e"
    using False by (simp add: float64_def Let_def)
  ultimately show ?thesis by simp
qed

lemma ntrain_le:
  assumes "0 \<le> f" and "f \<le> 1" and "n < 2 ^ 53"
  shows "nat \<lfloor>float64 (float64 (real n) * f)\<rfloor> \<le> n"
proof -
  have "float64 (real n) * f \<le> real n"
    using assms(1,2) by (simp add: float64_of_nat[OF assms(3)] mult_left_le)
  moreover have "0 \<le> float64 (real n) * f"
    using assms(1) by (simp add: float64_of_nat[OF assms(3)])
  ultimately have "float64 (float64 (real n) * f) \<le> real n"
    using float64_le_nat[OF _ _ assms(3)] by blast
  then have "\<lfloor>float64 (float64 (real n) * f)\<rfloor> \<le> int n" by (simp add: floor_le_iff)
  then show ?thesis by simp
qed

lemma float64_values:
  "float64 1 = 1" "float64 2 = 2" "float64 3 = 3" "float64 10 = 10"
  "float64 (3 / 4) = 3 / 4" "float64 (3 / 2) = 3 / 2" "float64 (9 / 4) = 9 / 4"
  using float64_eval[of 1 0] float64_eval[of 2 1] float64_eval[of 3 1] float64_eval[of 10 3]
    float64_eval[of "3 / 4" "- 1"] float64_eval[of "3 / 2" 0] float64_eval[of "9 / 4" 1]
  by (simp_all add: round_half_even_def Let_def powr_neg_numeral)

lemma float64_ten_times_0_7: "float64 (10 * double_0_7) = 7"
  using float64_eval[of "10 * double_0_7" 2]
  by (simp add: round_half_even_def double_0_7_def Let_def powr_neg_numeral)

text \<open>
  Setting indices that all lie in the mask never raises, and sets exactly those
  positions. A list of \<open>n\<close> distinct numbers below \<open>n\<close> has length \<open>n\<close>.
\<close>

lemma set_true_Inr:
  "\<forall>j\<in>set js. j < length m \<Longrightarrow>
     set_true m js = Inr (map (\<lambda>i. m ! i \<or> i \<in> set js) [0..<length m])"
proof (induction js arbitrary: m)
  case Nil
  then show ?case by (simp add: map_nth)
next
  case (Cons j js)
  then have j: "j < length m" and js: "\<forall>x\<in>set js. x < length (m[j := True])" by simp_all
  have "map (\<lambda>i. m[j := True] ! i \<or> i \<in> set js) [0..<length m]
        = map (\<lambda>i. m ! i \<or> i \<in> set (j # js)) [0..<length m]"
    using j by (intro map_cong refl) (auto simp: nth_list_update)
  with Cons.IH[OF js] j show ?case by simp
qed

lemma set_true_zeros:
  "\<forall>j\<in>set js. j < n \<Longrightarrow>
     set_true (replicate n False) js = Inr (map (\<lambda>i. i \<in> set js) [0..<n])"
  using set_true_Inr[of js "replicate n False"] by simp

lemma permutation_length:
  "distinct rv \<Longrightarrow> set rv = {..<n} \<Longrightarrow> length rv = n"
  using distinct_card[of rv] by simp

lemma partition_rows_valid:
  assumes "distinct (permutation rng n)" and "set (permutation rng n) = {..<n}"
  shows "partition_rows permutation config rng n =
     (let k = slice_bound n (py_int (float64 (float64 (real n) * trainfrac config))) in
      Inr (map (\<lambda>i. i \<in> set (take k (permutation rng n))) [0..<n],
           map (\<lambda>i. i \<in> set (drop k (permutation rng n))) [0..<n]))"
proof -
  let ?rv = "permutation rng n"
  let ?k = "slice_bound n (py_int (float64 (float64 (real n) * trainfrac config)))"
  have len: "length ?rv = n" using permutation_length[OF assms] .
  have t: "\<forall>j\<in>set (take ?k ?rv). j < n" using assms(2) by (auto dest: in_set_takeD)
  have d: "\<forall>j\<in>set (drop ?k ?rv). j < n" using assms(2) by (auto dest: in_set_dropD)
  show ?thesis
    by (simp add: partition_rows_def Let_def len set_true_zeros[OF t] set_true_zeros[OF d] bindE_def)
qed

lemma count_true_upt:
  "count_list (map P [0..<n]) True = card {i. i < n \<and> P i}"
proof (induction n)
  case 0
  then show ?case by simp
next
  case (Suc n)
  have s: "{i. i < Suc n \<and> P i} = (if P n then insert n {i. i < n \<and> P i} else {i. i < n \<and> P i})"
    by (auto simp: less_Suc_eq)
  show ?case using Suc by (simp add: s)
qed

lemma slice_bound_nonneg:
  assumes "0 \<le> p"
  shows "slice_bound n (py_int p) = min (nat \<lfloor>p\<rfloor>) n"
proof -
  have "0 \<le> \<lfloor>p\<rfloor>" using assms by simp
  then show ?thesis using assms by (simp add: slice_bound_def py_int_def)
qed

text \<open>
  C4. For every row count \<open>N\<close> and every training fraction, when the generator returns a
  permutation of \<open>0..N-1\<close>, the split returns two masks of length \<open>N\<close> and every index
  below \<open>N\<close> is true in exactly one of them: no index is true in both, none in neither.
\<close>

theorem masks_disjoint_exhaustive:
  assumes "distinct (permutation rng n)" and "set (permutation rng n) = {..<n}"
  shows "\<exists>train_mask val_mask.
           partition_rows permutation config rng n = Inr (train_mask, val_mask)
         \<and> length train_mask = n \<and> length val_mask = n
         \<and> (\<forall>i<n. train_mask ! i \<noteq> val_mask ! i)"
proof -
  let ?rv = "permutation rng n"
  let ?k = "slice_bound n (py_int (float64 (float64 (real n) * trainfrac config)))"
  have dj: "set (take ?k ?rv) \<inter> set (drop ?k ?rv) = {}"
    using set_take_disj_set_drop_if_distinct[OF assms(1), of ?k ?k] by simp
  have un: "set (take ?k ?rv) \<union> set (drop ?k ?rv) = {..<n}"
    using set_append[of "take ?k ?rv" "drop ?k ?rv"] assms(2) by simp
  have "(i \<in> set (take ?k ?rv)) \<noteq> (i \<in> set (drop ?k ?rv))" if "i < n" for i
    using dj un that by blast
  then show ?thesis
    by (simp add: partition_rows_valid[of permutation rng n config, OF assms] Let_def)
qed

theorem masks_disjoint_exhaustive_witness:
  "\<exists>train_mask val_mask.
      partition_rows rotation inform_cfg (1::nat) 3 = Inr (train_mask, val_mask)
    \<and> length train_mask = 3 \<and> length val_mask = 3
    \<and> (\<forall>i<3. train_mask ! i \<noteq> val_mask ! i)"
proof -
  have r: "rotation 1 3 = [1, 2, 0]" by (simp add: rotation_def upt_rec)
  have d: "distinct (rotation 1 3)" unfolding r by simp
  have s: "set (rotation 1 3) = {..<3}" unfolding r by auto
  show ?thesis by (rule masks_disjoint_exhaustive[of rotation 1 3 inform_cfg, OF d s])
qed

text \<open>
  The float64 number nearest to 0.7 lies below 0.7, so ten times it lies below 7 and its
  floor is 6; the float64 product rounds to 7, and the split marks seven training rows.
\<close>

theorem training_rows_rounded_counterexample:
  "0 < double_0_7 \<and> double_0_7 < 1
   \<and> \<lfloor>real 10 * double_0_7\<rfloor> = 6
   \<and> partition_rows rotation (inform_cfg\<lparr>trainfrac := double_0_7\<rparr>) (0::nat) 10
     = Inr ([True, True, True, True, True, True, True, False, False, False],
            [False, False, False, False, False, False, False, True, True, True])"
proof (intro conjI)
  show "0 < double_0_7" "double_0_7 < 1" "\<lfloor>real 10 * double_0_7\<rfloor> = 6"
    by (simp_all add: double_0_7_def)
  have k: "slice_bound 10 (py_int (float64 (float64 (real 10) * double_0_7))) = 7"
    by (simp add: float64_values float64_ten_times_0_7 py_int_def slice_bound_def)
  have r: "rotation 0 10 = [0, 1, 2, 3, 4, 5, 6, 7, 8, 9]" by (simp add: rotation_def upt_rec)
  have d: "distinct (rotation 0 10)" unfolding r by simp
  have s: "set (rotation 0 10) = {..<10}" unfolding r by auto
  have t: "trainfrac (inform_cfg\<lparr>trainfrac := double_0_7\<rparr>) = double_0_7" by simp
  show "partition_rows rotation (inform_cfg\<lparr>trainfrac := double_0_7\<rparr>) (0::nat) 10
     = Inr ([True, True, True, True, True, True, True, False, False, False],
            [False, False, False, False, False, False, False, True, True, True])"
    unfolding partition_rows_valid[of rotation 0 10, OF d s] t k Let_def r
    by (simp add: upt_rec)
qed

text \<open>
  C5, as amended. For every row count \<open>N\<close> and training fraction \<open>f\<close> strictly between 0
  and 1, let \<open>k\<close> be \<open>int(N * f)\<close> as the program computes it: the floor of the float64
  product of \<open>N\<close> and \<open>f\<close>. The rows true in the training mask are the first \<open>k\<close> entries
  of the permutation, the rows true in the validation mask are the entries after them,
  and the two masks hold \<open>min k N\<close> and \<open>N - k\<close> true entries; \<open>k\<close> is at most \<open>N\<close> for
  every \<open>N\<close> below \<open>2^53\<close>, and the counts are then \<open>k\<close> and \<open>N - k\<close>.
\<close>

theorem training_rows_counted:
  assumes "0 < trainfrac config" and "trainfrac config < 1"
    and "distinct (permutation rng n)" and "set (permutation rng n) = {..<n}"
  shows "\<exists>train_mask val_mask.
           partition_rows permutation config rng n = Inr (train_mask, val_mask)
         \<and> (\<forall>i<n. train_mask ! i
                = (i \<in> set (take (nat \<lfloor>float64 (float64 (real n) * trainfrac config)\<rfloor>)
                              (permutation rng n))))
         \<and> (\<forall>i<n. val_mask ! i
                = (i \<in> set (drop (nat \<lfloor>float64 (float64 (real n) * trainfrac config)\<rfloor>)
                              (permutation rng n))))
         \<and> count_list train_mask True
             = min (nat \<lfloor>float64 (float64 (real n) * trainfrac config)\<rfloor>) n
         \<and> count_list val_mask True
             = n - nat \<lfloor>float64 (float64 (real n) * trainfrac config)\<rfloor>
         \<and> (n < 2 ^ 53 \<longrightarrow> nat \<lfloor>float64 (float64 (real n) * trainfrac config)\<rfloor> \<le> n)"
proof -
  let ?rv = "permutation rng n"
  let ?p = "float64 (float64 (real n) * trainfrac config)"
  let ?k = "nat \<lfloor>?p\<rfloor>"
  have "0 \<le> float64 (real n) * trainfrac config"
    using float64_nonneg[of "real n"] assms(1) by simp
  then have p: "0 \<le> ?p" by (rule float64_nonneg)
  have k: "slice_bound n (py_int ?p) = min ?k n" using slice_bound_nonneg[OF p] .
  have len: "length ?rv = n" using permutation_length[OF assms(3,4)] .
  have tk: "take (min ?k n) ?rv = take ?k ?rv" and dk: "drop (min ?k n) ?rv = drop ?k ?rv"
    using len by (simp_all add: min_def)
  have "{i. i < n \<and> i \<in> set (take ?k ?rv)} = set (take ?k ?rv)"
    using assms(4) by (auto dest: in_set_takeD)
  then have ct: "card {i. i < n \<and> i \<in> set (take ?k ?rv)} = min ?k n"
    using distinct_card[OF distinct_take[OF assms(3), of ?k]] len by (simp add: min.commute)
  have "{i. i < n \<and> i \<in> set (drop ?k ?rv)} = set (drop ?k ?rv)"
    using assms(4) by (auto dest: in_set_dropD)
  then have cd: "card {i. i < n \<and> i \<in> set (drop ?k ?rv)} = n - ?k"
    using distinct_card[OF distinct_drop[OF assms(3), of ?k]] len by simp
  have le: "n < 2 ^ 53 \<longrightarrow> ?k \<le> n"
    using ntrain_le[of "trainfrac config" n] assms(1,2) by simp
  show ?thesis
    by (simp add: partition_rows_valid[of permutation rng n config, OF assms(3,4)] Let_def k
        tk dk count_true_upt ct cd le)
qed

theorem training_rows_counted_witness:
  "\<exists>train_mask val_mask.
      partition_rows rotation inform_cfg (1::nat) 3 = Inr (train_mask, val_mask)
    \<and> (\<forall>i<3. train_mask ! i = (i \<in> set (take 2 (rotation 1 3))))
    \<and> (\<forall>i<3. val_mask ! i = (i \<in> set (drop 2 (rotation 1 3))))
    \<and> count_list train_mask True = 2
    \<and> count_list val_mask True = 1"
proof -
  have r: "rotation 1 3 = [1, 2, 0]" by (simp add: rotation_def upt_rec)
  have d: "distinct (rotation 1 3)" unfolding r by simp
  have s: "set (rotation 1 3) = {..<3}" unfolding r by auto
  have f: "0 < trainfrac inform_cfg" "trainfrac inform_cfg < 1" by (simp_all add: inform_cfg_def)
  have k: "nat \<lfloor>float64 (float64 (real 3) * trainfrac inform_cfg)\<rfloor> = 2"
    by (simp add: inform_cfg_def float64_values)
  show ?thesis using training_rows_counted[of inform_cfg rotation 1 3, OF f d s] unfolding k by simp
qed

text \<open>
  C2. The claim is that the split is a function of the configured seed and \<open>N\<close>. The
  split does not read the seed: changing it changes nothing, and with one seed, 87, and
  \<open>N = 2\<close> the masks differ between two states of the process-wide generator.
\<close>

theorem partition_ignores_seed:
  "partition_rows permutation (config\<lparr>seed := s\<rparr>) rng n = partition_rows permutation config rng n
   \<and> partition_rows rotation (inform_cfg\<lparr>seed := 87\<rparr>) (0::nat) 2 = Inr ([True, False], [False, True])
   \<and> partition_rows rotation (inform_cfg\<lparr>seed := 87\<rparr>) (1::nat) 2 = Inr ([False, True], [True, False])"
  by (simp add: partition_rows_def rotation_def inform_cfg_def py_int_def slice_bound_def
      bindE_def Let_def upt_rec numeral_2_eq_2 float64_values)

text \<open>
  C7. The claim is that, for the method \<open>balanced\<close>, \<open>getOmega\<close> is called with the
  configured bin width. The call passes the targets and the method only: its bin width
  argument is absent, and \<open>run\<close> does the same whatever \<open>csl_binwidth\<close> is.
\<close>

theorem binwidth_not_passed:
  "oc_binwidth (omega_args (config\<lparr>csl_method := ''balanced'', csl_binwidth := w\<rparr>) sz) = None
   \<and> run permutation getOmega junk (config\<lparr>csl_binwidth := w\<rparr>) rng training_data
     = run permutation getOmega junk config rng training_data"
  by (simp add: omega_args_def run_def gp_args_def partition_rows_def)

text \<open>The first row of the fixed table, as a training table of one row.\<close>

lemma photometry_first_row_encoded:
  "prepare_data zeros (slice_rows 0 1 photometry) (bands inform_cfg) (err_bands inform_cfg)
     (nondetect_val inform_cfg) (mag_limits inform_cfg) (log_errors inform_cfg)
   = Inr [[Fin 27, Fin 21, Fin 1, Fin 0]]"
  by (simp add: encoder_eval photometry_def slice_rows_def inform_cfg_def)

lemma one_row_split:
  "partition_rows rotation inform_cfg (0::nat) (Suc 0) = Inr ([False], [True])"
  by (simp add: partition_rows_def rotation_def inform_cfg_def py_int_def slice_bound_def
      bindE_def Let_def float64_values)

text \<open>
  One row and a training fraction of 3/4 give \<open>floor (N * f) = 0\<close>, in float64 as in
  exact arithmetic; \<open>run\<close> raises nothing and calls \<open>train\<close> with no training row.
\<close>

theorem empty_training_set_counterexample:
  "\<lfloor>real 1 * trainfrac inform_cfg\<rfloor> = 0
   \<and> run rotation unit_weights zeros inform_cfg (0::nat) (slice_rows 0 1 photometry)
     = Inr (gp_args inform_cfg,
            \<lparr>tr_X = [[Fin 27, Fin 21, Fin 1, Fin 0]], tr_Y = [[Fin (1 / 2)]], tr_omega = [1],
             tr_training = [False], tr_validation = [True],
             tr_maxIter = 200, tr_maxAttempts = 100\<rparr>)"
proof
  show "\<lfloor>real 1 * trainfrac inform_cfg\<rfloor> = 0" by (simp add: inform_cfg_def)
  have l: "lookup (slice_rows 0 1 photometry) (redshift_col inform_cfg) = Inr [Fin (1 / 2)]"
    by (simp add: lookup_def slice_rows_def photometry_def inform_cfg_def)
  have w: "unit_weights (omega_args inform_cfg (map (\<lambda>z. [z]) [Fin (1 / 2)])) = Inr [1]"
    by (simp add: unit_weights_def omega_args_def)
  have w': "unit_weights (omega_args inform_cfg [[Fin (1 / 2)]]) = Inr [1]"
    by (simp add: unit_weights_def omega_args_def)
  have p: "partition_rows rotation inform_cfg (0::nat) (length [[Fin 27, Fin 21, Fin 1, Fin 0]])
             = Inr ([False], [True])"
    using one_row_split by simp
  have m: "max_iter inform_cfg = 200" "max_attempt inform_cfg = 100"
    by (simp_all add: inform_cfg_def)
  show "run rotation unit_weights zeros inform_cfg (0::nat) (slice_rows 0 1 photometry)
     = Inr (gp_args inform_cfg,
            \<lparr>tr_X = [[Fin 27, Fin 21, Fin 1, Fin 0]], tr_Y = [[Fin (1 / 2)]], tr_omega = [1],
             tr_training = [False], tr_validation = [True],
             tr_maxIter = 200, tr_maxAttempts = 100\<rparr>)"
    by (simp only: run_def photometry_first_row_encoded l p w w' m bindE_def sum.case Let_def
        fst_conv snd_conv list.map)
qed

lemma const_upt: "map (\<lambda>i. c) [0..<n] = replicate n c"
  by (simp add: map_replicate_const)

text \<open>
  C8, as amended. For every row count \<open>N\<close> and training fraction \<open>f\<close> for which
  \<open>int(N * f)\<close>, as the program computes it in float64, is 0 or \<open>N\<close>, the training stage
  does not reject the configuration: when the encoding, the redshift column and the
  weighting call succeed, it calls the training routine of the model, with a training
  mask that is false everywhere in the first case and a validation mask that is false
  everywhere in the second.
\<close>

theorem degenerate_split_is_trained:
  assumes "prepare_data junk d (bands config) (err_bands config) (nondetect_val config)
             (mag_limits config) (log_errors config) = Inr X"
    and "d (redshift_col config) = Some zcol"
    and "getOmega (omega_args config (map (\<lambda>z. [z]) zcol)) = Inr w"
    and "distinct (permutation rng (length X))"
    and "set (permutation rng (length X)) = {..<length X}"
    and "py_int (float64 (float64 (real (length X)) * trainfrac config)) = 0
         \<or> py_int (float64 (float64 (real (length X)) * trainfrac config)) = int (length X)"
  shows "\<exists>tr. run permutation getOmega junk config rng d = Inr (gp_args config, tr)
           \<and> tr_X tr = X
           \<and> (py_int (float64 (float64 (real (length X)) * trainfrac config)) = 0 \<longrightarrow>
                tr_training tr = replicate (length X) False
              \<and> tr_validation tr = replicate (length X) True)
           \<and> (py_int (float64 (float64 (real (length X)) * trainfrac config)) = int (length X) \<longrightarrow>
                tr_training tr = replicate (length X) True
              \<and> tr_validation tr = replicate (length X) False)"
proof -
  let ?n = "length X"
  let ?rv = "permutation rng ?n"
  let ?t = "py_int (float64 (float64 (real ?n) * trainfrac config))"
  let ?k = "slice_bound ?n ?t"
  have len: "length ?rv = ?n" using permutation_length[OF assms(4,5)] .
  have k0: "?t = 0 \<Longrightarrow> ?k = 0" by (simp add: slice_bound_def)
  have kn: "?t = int ?n \<Longrightarrow> ?k = ?n" by (simp add: slice_bound_def)
  have mem: "map (\<lambda>i. i \<in> set ?rv) [0..<?n] = replicate ?n True"
  proof -
    have "map (\<lambda>i. i \<in> set ?rv) [0..<?n] = map (\<lambda>i. True) [0..<?n]"
      by (rule map_cong) (simp_all add: assms(5))
    then show ?thesis by (simp add: const_upt)
  qed
  have p: "partition_rows permutation config rng ?n =
      Inr (map (\<lambda>i. i \<in> set (take ?k ?rv)) [0..<?n], map (\<lambda>i. i \<in> set (drop ?k ?rv)) [0..<?n])"
    using partition_rows_valid[of permutation rng ?n config, OF assms(4,5)] by (simp add: Let_def)
  have l: "lookup d (redshift_col config) = Inr zcol" using assms(2) by (simp add: lookup_def)
  have r: "run permutation getOmega junk config rng d =
      Inr (gp_args config,
           \<lparr>tr_X = X, tr_Y = map (\<lambda>z. [z]) zcol, tr_omega = w,
            tr_training = map (\<lambda>i. i \<in> set (take ?k ?rv)) [0..<?n],
            tr_validation = map (\<lambda>i. i \<in> set (drop ?k ?rv)) [0..<?n],
            tr_maxIter = max_iter config, tr_maxAttempts = max_attempt config\<rparr>)"
    by (simp add: run_def assms(1) l p assms(3) bindE_def Let_def)
  have z: "?t = 0 \<Longrightarrow>
             map (\<lambda>i. i \<in> set (take ?k ?rv)) [0..<?n] = replicate ?n False
           \<and> map (\<lambda>i. i \<in> set (drop ?k ?rv)) [0..<?n] = replicate ?n True"
    using k0 mem by (simp add: const_upt)
  have f: "?t = int ?n \<Longrightarrow>
             map (\<lambda>i. i \<in> set (take ?k ?rv)) [0..<?n] = replicate ?n True
           \<and> map (\<lambda>i. i \<in> set (drop ?k ?rv)) [0..<?n] = replicate ?n False"
    using kn mem len by (simp add: const_upt)
  show ?thesis using r z f by simp
qed

theorem degenerate_split_is_trained_witness:
  "\<exists>tr. run rotation unit_weights zeros inform_cfg (0::nat) (slice_rows 0 1 photometry)
          = Inr (gp_args inform_cfg, tr)
       \<and> tr_X tr = [[Fin 27, Fin 21, Fin 1, Fin 0]]
       \<and> tr_training tr = [False] \<and> tr_validation tr = [True]"
proof -
  have z: "slice_rows 0 1 photometry (redshift_col inform_cfg) = Some [Fin (1 / 2)]"
    by (simp add: slice_rows_def photometry_def inform_cfg_def)
  have w: "unit_weights (omega_args inform_cfg (map (\<lambda>z. [z]) [Fin (1 / 2)])) = Inr [1]"
    by (simp add: unit_weights_def omega_args_def)
  have r: "rotation 0 (length [[Fin 27, Fin 21, Fin 1, Fin 0]]) = [0]"
    by (simp add: rotation_def)
  have d: "distinct (rotation 0 (length [[Fin 27, Fin 21, Fin 1, Fin 0]]))" unfolding r by simp
  have s: "set (rotation 0 (length [[Fin 27, Fin 21, Fin 1, Fin 0]]))
             = {..<length [[Fin 27, Fin 21, Fin 1, Fin 0]]}" unfolding r by auto
  have k0: "py_int (float64 (float64 (real (length [[Fin 27, Fin 21, Fin 1, Fin 0]]))
                      * trainfrac inform_cfg)) = 0"
    by (simp add: inform_cfg_def float64_values py_int_def)
  from degenerate_split_is_trained[of zeros "slice_rows 0 1 photometry" inform_cfg _ _ unit_weights _ rotation 0,
      OF photometry_first_row_encoded z w d s disjI1[OF k0]] k0
  show ?thesis by simp
qed

section \<open>Claims about the estimation stage\<close>

text \<open>
  C1. The claim is that the scale of each posterior is the square root of the total
  variance. The ensemble is built with \<open>scale = totalV\<close>: for a model whose total
  variance is 4 the scale of every row is 4, and the standard deviation is 2.
\<close>

theorem scale_is_total_variance:
  "process_chunk zeros loc_mode toy_model estimator_cfg 0 2 photometry True
     = Inr (\<lparr>loc = [Fin 27, Fin 22], scale = [Fin 4, Fin 4], zmode = Some [Fin 27, Fin 22]\<rparr>,
            0, 2, True)
   \<and> totalV (toy_model row) = Fin 4
   \<and> np_sqrt (Fin 4) = Fin 2"
  by (simp add: process_chunk_def encoder_eval photometry_def estimator_cfg_def
      predict_def toy_model_def ens_mode_def loc_mode_def linspace_def)













end
